theory Spec2Isabelle
  imports Main
begin

section \<open>File renamer: a shallow embedding of \<^verbatim>\<open>file_renamer.py\<close>\<close>

text \<open>
  Strings are lists of 8-bit characters; the letters and digits of the model are the
  ASCII ones. Paths follow \<^verbatim>\<open>pathlib.PurePosixPath\<close>: a path is an anchor
  (\<^verbatim>\<open>''\<close>, \<^verbatim>\<open>'/'\<close> or \<^verbatim>\<open>'//'\<close>) and a list of components,
  and two paths are equal when both agree. The operating system is a parameter: a record
  of the four calls the program makes (\<^verbatim>\<open>exists\<close>, \<^verbatim>\<open>is_file\<close>,
  \<^verbatim>\<open>iterdir\<close>, \<^verbatim>\<open>rename\<close>) over an arbitrary type of file-system states.
  \<^verbatim>\<open>exists\<close> and \<^verbatim>\<open>is_file\<close> are total predicates, \<^verbatim>\<open>iterdir\<close> and \<^verbatim>\<open>rename\<close>
  may raise, and a rename that raises leaves the file system as it was. Counters and
  indices only count upwards from 0 or 1, so they are natural numbers.
\<close>

subsection \<open>Strings\<close>

definition is_upper :: "char \<Rightarrow> bool" where
  "is_upper c = (65 \<le> (of_char c :: nat) \<and> (of_char c :: nat) \<le> 90)"

definition is_digit :: "char \<Rightarrow> bool" where
  "is_digit c = (48 \<le> (of_char c :: nat) \<and> (of_char c :: nat) \<le> 57)"

definition lower_char :: "char \<Rightarrow> char" where
  "lower_char c = (if is_upper c then char_of ((of_char c :: nat) + 32) else c)"

text \<open>\<^verbatim>\<open>s.lower()\<close>\<close>

definition str_lower :: "string \<Rightarrow> string" where
  "str_lower s = map lower_char s"

text \<open>\<^verbatim>\<open>s.startswith(p)\<close>\<close>

definition startswith :: "string \<Rightarrow> string \<Rightarrow> bool" where
  "startswith s p = (take (length p) s = p)"

text \<open>\<^verbatim>\<open>str(n)\<close> for a non-negative integer.\<close>

definition digit_char :: "nat \<Rightarrow> char" where
  "digit_char d = char_of (48 + d)"

fun str_nat :: "nat \<Rightarrow> string" where
  "str_nat n = (if n < 10 then [digit_char n] else str_nat (n div 10) @ [digit_char (n mod 10)])"

declare str_nat.simps [simp del]

text \<open>
  \<^verbatim>\<open>s.replace(old, new)\<close> for a non-empty \<^verbatim>\<open>old\<close>: every occurrence, found from
  the left and not overlapping, is replaced. The program only calls it with
  \<^verbatim>\<open>old = "{n}"\<close>.
\<close>

fun str_replace :: "string \<Rightarrow> string \<Rightarrow> string \<Rightarrow> string" where
  "str_replace old new [] = []"
| "str_replace old new (c # cs) =
     (if old \<noteq> [] \<and> startswith (c # cs) old
      then new @ str_replace old new (drop (length old - 1) cs)
      else c # str_replace old new cs)"

text \<open>\<^verbatim>\<open>s.split(sep)\<close> for a one-character separator, and \<^verbatim>\<open>s.rfind(c)\<close>.\<close>

fun split_sep :: "char \<Rightarrow> string \<Rightarrow> string list" where
  "split_sep sep [] = [[]]"
| "split_sep sep (c # cs) =
     (if c = sep then [] # split_sep sep cs
      else (case split_sep sep cs of
              [] \<Rightarrow> [[c]]
            | w # ws \<Rightarrow> (c # w) # ws))"

fun rfind :: "char \<Rightarrow> string \<Rightarrow> nat option" where
  "rfind c [] = None"
| "rfind c (x # xs) =
     (case rfind c xs of
        Some i \<Rightarrow> Some (Suc i)
      | None \<Rightarrow> (if x = c then Some 0 else None))"

subsection \<open>Paths (\<^verbatim>\<open>pathlib\<close>, POSIX flavour)\<close>

datatype path = Path (anchor: string) (parts: "string list")

definition parse_anchor :: "string \<Rightarrow> string" where
  "parse_anchor s =
     (if \<not> startswith s ''/'' then ''''
      else if startswith s ''//'' \<and> \<not> startswith s ''///'' then ''//''
      else ''/'')"

definition parse_path :: "string \<Rightarrow> path" where
  "parse_path s =
     Path (parse_anchor s) (filter (\<lambda>p. p \<noteq> [] \<and> p \<noteq> ''.'') (split_sep (CHR ''/'') s))"

text \<open>\<^verbatim>\<open>p / s\<close>: an absolute right operand replaces the left one.\<close>

definition path_div :: "path \<Rightarrow> string \<Rightarrow> path" where
  "path_div p s =
     (let q = parse_path s
      in if anchor q \<noteq> [] then q else Path (anchor p) (parts p @ parts q))"

definition path_name :: "path \<Rightarrow> string" where
  "path_name p = (if parts p = [] then [] else last (parts p))"

text \<open>
  \<^verbatim>\<open>p.suffix\<close> and \<^verbatim>\<open>p.stem\<close>: the name is cut at its last dot, unless that dot is
  the first or the last character of the name (the rule of CPython up to 3.13; from 3.14
  a trailing dot is a suffix of its own).
\<close>

definition path_suffix :: "path \<Rightarrow> string" where
  "path_suffix p =
     (let name = path_name p
      in case rfind (CHR ''.'') name of
           None \<Rightarrow> []
         | Some i \<Rightarrow> (if 0 < i \<and> i < length name - 1 then drop i name else []))"

definition path_stem :: "path \<Rightarrow> string" where
  "path_stem p =
     (let name = path_name p
      in case rfind (CHR ''.'') name of
           None \<Rightarrow> name
         | Some i \<Rightarrow> (if 0 < i \<and> i < length name - 1 then take i name else name))"

definition path_parent :: "path \<Rightarrow> path" where
  "path_parent p = Path (anchor p) (butlast (parts p))"

subsection \<open>Data model\<close>

record RenameOperation =
  source :: path
  target :: path
  status :: string
  error :: "string option"

record RenameResult =
  total_files :: nat
  successful :: nat
  failed :: nat
  skipped :: nat
  errors :: "string list"

text \<open>
  The exceptions the program tells apart: \<^verbatim>\<open>PermissionError\<close>, any other
  \<^verbatim>\<open>OSError\<close>, and any other \<^verbatim>\<open>Exception\<close>; each carries \<^verbatim>\<open>str(e)\<close>.
\<close>

datatype exn = PermissionError string | OSError string | OtherException string

record 'fs os_ops =
  os_exists :: "'fs \<Rightarrow> path \<Rightarrow> bool"
  os_is_file :: "'fs \<Rightarrow> path \<Rightarrow> bool"
  os_iterdir :: "'fs \<Rightarrow> path \<Rightarrow> exn + path list"
  os_rename :: "'fs \<Rightarrow> path \<Rightarrow> path \<Rightarrow> exn + 'fs"

record FileRenamer =
  folder_path :: path
  pattern :: string
  rename_operations :: "RenameOperation list"

subsection \<open>The pure helpers\<close>

definition normalize_extension :: "string \<Rightarrow> string" where
  "normalize_extension ext =
     (let ext = (if \<not> startswith ext ''.'' then ''.'' @ ext else ext)
      in str_lower ext)"

text \<open>
  \<^verbatim>\<open>re.findall(r'\d+', s)\<close>: the maximal runs of digits, from the left; and
  \<^verbatim>\<open>int(s)\<close> on a string of digits.
\<close>

function findall_digits :: "string \<Rightarrow> string list" where
  "findall_digits [] = []"
| "findall_digits (c # cs) =
     (if is_digit c
      then takeWhile is_digit (c # cs) # findall_digits (dropWhile is_digit cs)
      else findall_digits cs)"
  by pat_completeness auto
termination
  by (relation "measure length") (auto simp: length_dropWhile_le less_Suc_eq_le)

definition digit_val :: "char \<Rightarrow> nat" where
  "digit_val c = (of_char c :: nat) - 48"

definition int_of_digits :: "string \<Rightarrow> nat" where
  "int_of_digits s = foldl (\<lambda>a c. 10 * a + digit_val c) 0 s"

definition extract_numeric_order :: "string \<Rightarrow> nat" where
  "extract_numeric_order filename =
     (let numbers = findall_digits filename
      in case numbers of
           [] \<Rightarrow> 0
         | n # _ \<Rightarrow> int_of_digits n)"

subsection \<open>Collision resolver\<close>

text \<open>
  The \<^verbatim>\<open>while True\<close> loop of \<^verbatim>\<open>handle_name_conflict\<close>. It runs for ever when every
  suffixed candidate exists, so it is a partial function: not returning is \<open>None\<close>.
  The existence check \<^verbatim>\<open>Path.exists\<close> is the predicate \<open>ex\<close>.
\<close>

partial_function (option) conflict_loop ::
  "(path \<Rightarrow> bool) \<Rightarrow> path \<Rightarrow> string \<Rightarrow> string \<Rightarrow> nat \<Rightarrow> path option" where
  "conflict_loop ex parent stem suffix counter =
     (let new_name = stem @ ''_'' @ str_nat counter @ suffix;
          new_path = path_div parent new_name
      in if \<not> ex new_path then Some new_path
         else conflict_loop ex parent stem suffix (counter + 1))"

definition handle_name_conflict :: "(path \<Rightarrow> bool) \<Rightarrow> path \<Rightarrow> path option" where
  "handle_name_conflict ex target_path =
     (if \<not> ex target_path then Some target_path
      else (let stem = path_stem target_path;
                suffix = path_suffix target_path;
                parent = path_parent target_path
            in conflict_loop ex parent stem suffix 1))"

subsection \<open>Rename planner\<close>

text \<open>
  \<^verbatim>\<open>list.sort(key=...)\<close> is a stable sort into non-decreasing key order; it is
  modelled by the (stable) insertion sort \<^const>\<open>sort_key\<close>. An exception raised by
  \<^verbatim>\<open>iterdir\<close> propagates.
\<close>

definition discover_files :: "'fs os_ops \<Rightarrow> 'fs \<Rightarrow> FileRenamer \<Rightarrow> exn + path list" where
  "discover_files os fs self =
     (case os_iterdir os fs (folder_path self) of
        Inl e \<Rightarrow> Inl e
      | Inr all_items \<Rightarrow>
          (let files = filter (os_is_file os fs) all_items
           in Inr (sort_key (\<lambda>f. extract_numeric_order (path_name f)) files)))"

text \<open>The loop over \<^verbatim>\<open>enumerate(files, start=1)\<close>; \<open>index\<close> is the current number.\<close>

fun plan_operations ::
  "(path \<Rightarrow> bool) \<Rightarrow> path \<Rightarrow> string \<Rightarrow> nat \<Rightarrow> path list \<Rightarrow> RenameOperation list option" where
  "plan_operations ex folder pat index [] = Some []"
| "plan_operations ex folder pat index (file_path # files) =
     (let extension = normalize_extension (path_suffix file_path);
          new_name = str_replace ''{n}'' (str_nat index) pat @ extension;
          target_path = path_div folder new_name
      in case handle_name_conflict ex target_path of
           None \<Rightarrow> None
         | Some target_path \<Rightarrow>
             (let operation = \<lparr>source = file_path, target = target_path,
                                status = ''pending'', error = None\<rparr>
              in case plan_operations ex folder pat (index + 1) files of
                   None \<Rightarrow> None
                 | Some operations \<Rightarrow> Some (operation # operations)))"

text \<open>
  The result is \<open>None\<close> when the resolver does not return, \<open>Some (Inl e)\<close> when
  listing the directory raises \<open>e\<close>, and otherwise the renamer with the plan stored in
  \<open>rename_operations\<close> (the list the method also returns).
\<close>

definition generate_rename_plan ::
  "'fs os_ops \<Rightarrow> 'fs \<Rightarrow> FileRenamer \<Rightarrow> (exn + FileRenamer) option" where
  "generate_rename_plan os fs self =
     (case discover_files os fs self of
        Inl e \<Rightarrow> Some (Inl e)
      | Inr files \<Rightarrow>
          (case plan_operations (os_exists os fs) (folder_path self) (pattern self) 1 files of
             None \<Rightarrow> None
           | Some operations \<Rightarrow> Some (Inr (self\<lparr>rename_operations := operations\<rparr>))))"

subsection \<open>Rename executor\<close>

text \<open>The local variables of \<^verbatim>\<open>execute_renames\<close>, and the file system it acts on.\<close>

record 'fs run_state =
  disk :: 'fs
  successful_count :: nat
  failed_count :: nat
  skipped_count :: nat
  error_messages :: "string list"

definition mark_failed ::
  "'fs run_state \<Rightarrow> RenameOperation \<Rightarrow> string \<Rightarrow> 'fs run_state \<times> RenameOperation" where
  "mark_failed st operation error_msg =
     (st\<lparr>error_messages := error_messages st @ [error_msg],
         failed_count := failed_count st + 1\<rparr>,
      operation\<lparr>status := ''failed'', error := Some error_msg\<rparr>)"

text \<open>One iteration of the loop: the \<^verbatim>\<open>try\<close> body and its three handlers.\<close>

definition execute_one ::
  "'fs os_ops \<Rightarrow> 'fs run_state \<Rightarrow> RenameOperation \<Rightarrow> 'fs run_state \<times> RenameOperation" where
  "execute_one os st operation =
     (if \<not> os_exists os (disk st) (source operation) then
        mark_failed st operation (''Source file not found: '' @ path_name (source operation))
      else if source operation = target operation then
        (st\<lparr>skipped_count := skipped_count st + 1\<rparr>, operation\<lparr>status := ''skipped''\<rparr>)
      else
        (case os_rename os (disk st) (source operation) (target operation) of
           Inr fs' \<Rightarrow>
             (st\<lparr>disk := fs', successful_count := successful_count st + 1\<rparr>,
              operation\<lparr>status := ''success''\<rparr>)
         | Inl (PermissionError e) \<Rightarrow>
             mark_failed st operation
               (''Permission denied for '' @ path_name (source operation) @ '': '' @ e)
         | Inl (OSError e) \<Rightarrow>
             mark_failed st operation
               (''Failed to rename '' @ path_name (source operation) @ '': '' @ e)
         | Inl (OtherException e) \<Rightarrow>
             mark_failed st operation
               (''Unexpected error renaming '' @ path_name (source operation) @ '': '' @ e)))"

fun execute_loop ::
  "'fs os_ops \<Rightarrow> 'fs run_state \<Rightarrow> RenameOperation list \<Rightarrow> 'fs run_state \<times> RenameOperation list" where
  "execute_loop os st [] = (st, [])"
| "execute_loop os st (operation # operations) =
     (let (st1, operation1) = execute_one os st operation;
          (st2, operations2) = execute_loop os st1 operations
      in (st2, operation1 # operations2))"

definition initial_state :: "'fs \<Rightarrow> 'fs run_state" where
  "initial_state fs =
     \<lparr>disk = fs, successful_count = 0, failed_count = 0, skipped_count = 0,
      error_messages = []\<rparr>"

text \<open>
  The method returns the statistics; the model also returns the renamer, whose operations
  were updated in place, and the file system after the run.
\<close>

definition execute_renames ::
  "'fs os_ops \<Rightarrow> 'fs \<Rightarrow> FileRenamer \<Rightarrow> FileRenamer \<times> RenameResult \<times> 'fs" where
  "execute_renames os fs self =
     (if rename_operations self = [] then
        (self,
         \<lparr>total_files = 0, successful = 0, failed = 0, skipped = 0, errors = []\<rparr>,
         fs)
      else
        (let (st, operations) = execute_loop os (initial_state fs) (rename_operations self);
             self' = self\<lparr>rename_operations := operations\<rparr>;
             total = length (rename_operations self')
         in (self',
             \<lparr>total_files = total, successful = successful_count st,
              failed = failed_count st, skipped = skipped_count st,
              errors = error_messages st\<rparr>,
             disk st)))"

subsection \<open>A small file system for the worked examples\<close>

text \<open>
  A file system is a list of entries, each a path and whether it is a regular file,
  in directory-listing order. Listing a directory gives its children; renaming moves the
  entry, replaces an existing target (as POSIX \<^verbatim>\<open>rename\<close> does) and fails when the
  source is missing.
\<close>

type_synonym listing = "(path \<times> bool) list"

definition listing_rename :: "listing \<Rightarrow> path \<Rightarrow> path \<Rightarrow> exn + listing" where
  "listing_rename fs src tgt =
     (if src \<notin> set (map fst fs) then Inl (OSError ''No such file or directory'')
      else if src = tgt then Inr fs
      else Inr (map (\<lambda>(p, k). if p = src then (tgt, k) else (p, k))
                  (filter (\<lambda>(p, k). p \<noteq> tgt) fs)))"

definition listing_os :: "listing os_ops" where
  "listing_os =
     \<lparr>os_exists = (\<lambda>fs p. p \<in> set (map fst fs)),
      os_is_file = (\<lambda>fs p. (p, True) \<in> set fs),
      os_iterdir = (\<lambda>fs d. Inr (filter (\<lambda>p. parts p \<noteq> [] \<and> path_parent p = d) (map fst fs))),
      os_rename = listing_rename\<rparr>"

subsection \<open>Properties named by the specification\<close>

text \<open>A string starts with exactly one dot: with a dot, and not with two.\<close>

definition one_leading_dot :: "string \<Rightarrow> bool" where
  "one_leading_dot s = (startswith s ''.'' \<and> \<not> startswith s ''..'')"

text \<open>
  The \<open>k\<close>-th suffixed candidate for a desired path: \<^verbatim>\<open>parent / f"{stem}_{k}{suffix}"\<close>.
\<close>

definition suffixed_candidate :: "path \<Rightarrow> nat \<Rightarrow> path" where
  "suffixed_candidate p k =
     path_div (path_parent p) (path_stem p @ ''_'' @ str_nat k @ path_suffix p)"

text \<open>
  The error string recorded for a rename that raised \<open>e\<close> on the file \<open>name\<close>, as the three
  handlers format it.
\<close>

definition rename_error_text :: "exn \<Rightarrow> string \<Rightarrow> string" where
  "rename_error_text e name =
     (case e of
        PermissionError m \<Rightarrow> ''Permission denied for '' @ name @ '': '' @ m
      | OSError m \<Rightarrow> ''Failed to rename '' @ name @ '': '' @ m
      | OtherException m \<Rightarrow> ''Unexpected error renaming '' @ name @ '': '' @ m)"

text \<open>The state of the run just before the operation at position \<open>i\<close> of the plan.\<close>

definition state_before :: "'fs os_ops \<Rightarrow> 'fs \<Rightarrow> RenameOperation list \<Rightarrow> nat \<Rightarrow> 'fs run_state" where
  "state_before os fs plan i = fst (execute_loop os (initial_state fs) (take i plan))"

subsection \<open>Worked examples\<close>

text \<open>
  The examples live in the directory \<^verbatim>\<open>photos\<close>: a file of that directory, a
  pending operation between two of its names, a listing of regular files, and a renamer on
  it.
\<close>

definition photos_dir :: path where
  "photos_dir = Path [] [''photos'']"

definition in_photos :: "string \<Rightarrow> path" where
  "in_photos name = path_div photos_dir name"

definition pending_op :: "string \<Rightarrow> string \<Rightarrow> RenameOperation" where
  "pending_op src tgt =
     \<lparr>source = in_photos src, target = in_photos tgt, status = ''pending'', error = None\<rparr>"

definition files_of :: "string list \<Rightarrow> listing" where
  "files_of names = map (\<lambda>n. (in_photos n, True)) names"

definition renamer :: "string \<Rightarrow> RenameOperation list \<Rightarrow> FileRenamer" where
  "renamer pat ops = \<lparr>folder_path = photos_dir, pattern = pat, rename_operations = ops\<rparr>"

text \<open>
  The name and the path the planner proposes for the file \<open>file_path\<close> at the 1-based
  position \<open>i\<close>, before collision resolution.
\<close>

definition candidate_name :: "string \<Rightarrow> nat \<Rightarrow> path \<Rightarrow> string" where
  "candidate_name pat i file_path =
     str_replace ''{n}'' (str_nat i) pat @ normalize_extension (path_suffix file_path)"

definition candidate_path :: "path \<Rightarrow> string \<Rightarrow> nat \<Rightarrow> path \<Rightarrow> path" where
  "candidate_path folder pat i file_path = path_div folder (candidate_name pat i file_path)"

text \<open>\<^verbatim>\<open>old in s\<close>: the string \<open>s\<close> has an occurrence of \<open>old\<close>.\<close>

fun str_contains :: "string \<Rightarrow> string \<Rightarrow> bool" where
  "str_contains [] old = (old = [])"
| "str_contains (c # cs) old = (startswith (c # cs) old \<or> str_contains cs old)"

section \<open>Verification\<close>

subsection \<open>Extension normalizer\<close>

lemma lower_char_not_upper: "\<not> is_upper (lower_char c)"
  by (auto simp: lower_char_def is_upper_def)

lemma lower_char_dot: "lower_char c = CHR ''.'' \<longleftrightarrow> c = CHR ''.''"
proof
  assume h: "lower_char c = CHR ''.''"
  show "c = CHR ''.''"
  proof (cases "is_upper c")
    case True
    then have "(of_char (lower_char c) :: nat) = of_char c + 32"
      by (simp add: lower_char_def is_upper_def)
    with h True show ?thesis by (simp add: is_upper_def)
  next
    case False
    with h show ?thesis by (simp add: lower_char_def)
  qed
next
  assume "c = CHR ''.''"
  then show "lower_char c = CHR ''.''" by (simp add: lower_char_def is_upper_def)
qed

lemma startswith_dot: "startswith s ''.'' \<longleftrightarrow> (\<exists>t. s = CHR ''.'' # t)"
  by (cases s) (auto simp: startswith_def)

lemma startswith_dotdot: "startswith s ''..'' \<longleftrightarrow> (\<exists>t. s = CHR ''.'' # CHR ''.'' # t)"
  by (cases s; cases "tl s") (auto simp: startswith_def)

lemma str_lower_upper_free: "\<forall>c\<in>set (str_lower s). \<not> is_upper c"
  by (simp add: str_lower_def lower_char_not_upper)

lemma normalize_extension_one_dot:
  assumes "\<not> startswith ext ''..''"
  shows "one_leading_dot (normalize_extension ext)"
proof (cases "startswith ext ''.''")
  case True
  then obtain t where t: "ext = CHR ''.'' # t" by (auto simp: startswith_dot)
  with assms have "t = [] \<or> hd t \<noteq> CHR ''.''"
    by (cases t) (auto simp: startswith_dotdot)
  with t show ?thesis
    by (cases t) (auto simp: normalize_extension_def one_leading_dot_def startswith_dot
        startswith_dotdot str_lower_def lower_char_dot)
next
  case False
  then have "ext = [] \<or> hd ext \<noteq> CHR ''.''"
    by (cases ext) (auto simp: startswith_dot)
  with False show ?thesis
    by (cases ext) (auto simp: normalize_extension_def one_leading_dot_def startswith_dot
        startswith_dotdot str_lower_def lower_char_dot)
qed

text \<open>
  Claim C5, as amended. For every input string the normalized extension starts with a dot
  and contains no upper-case letter; it starts with exactly one dot whenever the input does
  not itself start with two dots (no suffix computed by \<^verbatim>\<open>pathlib\<close> does);
  \<^verbatim>\<open>"PNG"\<close> and \<^verbatim>\<open>".png"\<close> both give \<^verbatim>\<open>".png"\<close>, and the empty string gives
  \<^verbatim>\<open>"."\<close>.
\<close>

theorem normalize_extension_shape:
  "startswith (normalize_extension ext) ''.''
   \<and> (\<forall>c\<in>set (normalize_extension ext). \<not> is_upper c)
   \<and> (\<not> startswith ext ''..'' \<longrightarrow> one_leading_dot (normalize_extension ext))
   \<and> normalize_extension ''PNG'' = ''.png''
   \<and> normalize_extension ''.png'' = ''.png''
   \<and> normalize_extension '''' = ''.''"
proof -
  have a: "startswith (normalize_extension ext) ''.''"
    by (auto simp: normalize_extension_def startswith_dot str_lower_def lower_char_dot)
  have b: "\<forall>c\<in>set (normalize_extension ext). \<not> is_upper c"
    by (simp add: normalize_extension_def Let_def str_lower_upper_free)
  have c: "normalize_extension ''PNG'' = ''.png''" "normalize_extension ''.png'' = ''.png''"
    "normalize_extension '''' = ''.''"
    by code_simp+
  from a b c normalize_extension_one_dot show ?thesis by blast
qed

text \<open>The hypothesis of C5 (amended) holds of \<^verbatim>\<open>".JpG"\<close>.\<close>

theorem normalize_extension_shape_witness:
  "\<not> startswith ''.JpG'' ''..'' \<and> one_leading_dot (normalize_extension ''.JpG'')
   \<and> list_all (\<lambda>c. \<not> is_upper c) (normalize_extension ''.JpG'')"
  using normalize_extension_shape [of "''.JpG''"] by (simp add: startswith_def list_all_iff)

text \<open>
  Claim C5 as stated fails: the input \<^verbatim>\<open>"..PNG"\<close> already starts with a dot, so it
  is only lower-cased, and the output \<^verbatim>\<open>"..png"\<close> starts with two dots.
\<close>

theorem normalize_extension_two_dots_counterexample:
  "\<not> one_leading_dot (normalize_extension ''..PNG'')"
  by (simp add: normalize_extension_def one_leading_dot_def startswith_def str_lower_def)

subsection \<open>Sequence key extractor\<close>

lemma findall_digits_none: "\<forall>c\<in>set s. \<not> is_digit c \<Longrightarrow> findall_digits s = []"
  by (induction s) auto

lemma takeWhile_run:
  assumes "\<forall>c\<in>set run. is_digit c" and "post = [] \<or> \<not> is_digit (hd post)"
  shows "takeWhile is_digit (run @ post) = run"
proof -
  from assms(2) have "takeWhile is_digit post = []" by (cases post) auto
  with assms(1) show ?thesis by (simp add: takeWhile_append2)
qed

lemma findall_digits_first:
  assumes "\<forall>c\<in>set pre. \<not> is_digit c" and "run \<noteq> []" and "\<forall>c\<in>set run. is_digit c"
    and "post = [] \<or> \<not> is_digit (hd post)"
  shows "\<exists>rest. findall_digits (pre @ run @ post) = run # rest"
  using assms(1)
proof (induction pre)
  case Nil
  from assms(2) obtain c cs where run: "run = c # cs" by (cases run) auto
  with assms(3) have d: "is_digit c" by simp
  have "takeWhile is_digit (c # cs @ post) = run"
    using takeWhile_run [OF assms(3) assms(4)] run by simp
  with d run show ?case by simp
next
  case (Cons a pre)
  then show ?case by simp
qed

lemma int_of_digits_snoc: "int_of_digits (xs @ [c]) = 10 * int_of_digits xs + digit_val c"
  by (simp add: int_of_digits_def)

lemma int_of_digits_positional:
  "int_of_digits run = (\<Sum>i<length run. digit_val (run ! i) * 10 ^ (length run - 1 - i))"
proof (induction run rule: rev_induct)
  case Nil
  show ?case by (simp add: int_of_digits_def)
next
  case (snoc c xs)
  have "(\<Sum>i<length xs. digit_val ((xs @ [c]) ! i) * 10 ^ (length xs - i))
        = (\<Sum>i<length xs. 10 * (digit_val (xs ! i) * 10 ^ (length xs - 1 - i)))"
  proof (rule sum.cong)
    fix i assume "i \<in> {..<length xs}"
    then have i: "i < length xs" by simp
    then have "length xs - i = Suc (length xs - 1 - i)" by arith
    with i show "digit_val ((xs @ [c]) ! i) * 10 ^ (length xs - i)
                 = 10 * (digit_val (xs ! i) * 10 ^ (length xs - 1 - i))"
      by (simp add: nth_append)
  qed simp
  then show ?case
    by (simp add: int_of_digits_snoc snoc.IH sum_distrib_left)
qed

lemma digit_run_exists:
  assumes "\<exists>c\<in>set s. is_digit c"
  shows "\<exists>pre run post. s = pre @ run @ post \<and> (\<forall>c\<in>set pre. \<not> is_digit c) \<and> run \<noteq> []
           \<and> (\<forall>c\<in>set run. is_digit c) \<and> (post = [] \<or> \<not> is_digit (hd post))"
proof -
  let ?pre = "takeWhile (\<lambda>c. \<not> is_digit c) s"
  let ?r = "dropWhile (\<lambda>c. \<not> is_digit c) s"
  let ?run = "takeWhile is_digit ?r"
  let ?post = "dropWhile is_digit ?r"
  have s: "s = ?pre @ ?run @ ?post" by simp
  have p: "\<forall>c\<in>set ?pre. \<not> is_digit c" by (auto dest: set_takeWhileD)
  from assms have "?r \<noteq> []" by (auto simp: dropWhile_eq_Nil_conv)
  then have "is_digit (hd ?r)" using hd_dropWhile [of "\<lambda>c. \<not> is_digit c" s] by simp
  with \<open>?r \<noteq> []\<close> have r: "?run \<noteq> []" by (cases ?r) auto
  have d: "\<forall>c\<in>set ?run. is_digit c" by (auto dest: set_takeWhileD)
  have q: "?post = [] \<or> \<not> is_digit (hd ?post)"
    using hd_dropWhile [of is_digit ?r] by blast
  from s p r d q show ?thesis by blast
qed

text \<open>
  Claim C7. A file name without a digit has key 0. A file name \<open>pre @ run @ post\<close>, where
  \<open>pre\<close> has no digit, \<open>run\<close> is a non-empty string of digits and \<open>post\<close> is empty or
  starts with a non-digit (so \<open>run\<close> is the leftmost maximal run of digits), has as key the
  decimal value of \<open>run\<close>; every name with a digit has such a decomposition. The keys of
  \<^verbatim>\<open>photo5.jpg\<close>, \<^verbatim>\<open>10.PNG\<close> and \<^verbatim>\<open>noNumber.txt\<close> are 5, 10 and 0.
\<close>

theorem extract_numeric_order_first_run:
  "((\<forall>c\<in>set s. \<not> is_digit c) \<longrightarrow> extract_numeric_order s = 0)
   \<and> ((\<forall>c\<in>set pre. \<not> is_digit c) \<and> run \<noteq> [] \<and> (\<forall>c\<in>set run. is_digit c)
        \<and> (post = [] \<or> \<not> is_digit (hd post))
      \<longrightarrow> extract_numeric_order (pre @ run @ post)
          = (\<Sum>i<length run. digit_val (run ! i) * 10 ^ (length run - 1 - i)))
   \<and> ((\<exists>c\<in>set s. is_digit c)
      \<longrightarrow> (\<exists>pre run post. s = pre @ run @ post \<and> (\<forall>c\<in>set pre. \<not> is_digit c) \<and> run \<noteq> []
             \<and> (\<forall>c\<in>set run. is_digit c) \<and> (post = [] \<or> \<not> is_digit (hd post))))
   \<and> extract_numeric_order ''photo5.jpg'' = 5
   \<and> extract_numeric_order ''10.PNG'' = 10
   \<and> extract_numeric_order ''noNumber.txt'' = 0"
proof -
  have a: "(\<forall>c\<in>set s. \<not> is_digit c) \<longrightarrow> extract_numeric_order s = 0"
    by (simp add: extract_numeric_order_def findall_digits_none)
  have b: "(\<forall>c\<in>set pre. \<not> is_digit c) \<and> run \<noteq> [] \<and> (\<forall>c\<in>set run. is_digit c)
        \<and> (post = [] \<or> \<not> is_digit (hd post))
      \<longrightarrow> extract_numeric_order (pre @ run @ post)
          = (\<Sum>i<length run. digit_val (run ! i) * 10 ^ (length run - 1 - i))"
  proof
    assume h: "(\<forall>c\<in>set pre. \<not> is_digit c) \<and> run \<noteq> [] \<and> (\<forall>c\<in>set run. is_digit c)
        \<and> (post = [] \<or> \<not> is_digit (hd post))"
    then obtain rest where "findall_digits (pre @ run @ post) = run # rest"
      using findall_digits_first [of pre run post] by blast
    then show "extract_numeric_order (pre @ run @ post)
          = (\<Sum>i<length run. digit_val (run ! i) * 10 ^ (length run - 1 - i))"
      by (simp add: extract_numeric_order_def int_of_digits_positional)
  qed
  have c: "extract_numeric_order ''photo5.jpg'' = 5" "extract_numeric_order ''10.PNG'' = 10"
    "extract_numeric_order ''noNumber.txt'' = 0"
    by code_simp+
  from a b c digit_run_exists [of s] show ?thesis by blast
qed

text \<open>
  C7 at \<^verbatim>\<open>ab042x7.png\<close> (the first run \<^verbatim>\<open>042\<close> has value 42) and at
  \<^verbatim>\<open>x.txt\<close>.
\<close>

theorem extract_numeric_order_first_run_witness:
  "extract_numeric_order (''ab'' @ ''042'' @ ''x7.png'') = 42
   \<and> extract_numeric_order ''x.txt'' = 0"
proof -
  have d: "list_all (\<lambda>c. \<not> is_digit c) ''ab''" "list_all is_digit ''042''"
    "\<not> is_digit (hd ''x7.png'')" "list_all (\<lambda>c. \<not> is_digit c) ''x.txt''"
    by code_simp+
  have v: "(\<Sum>i<length ''042''. digit_val (''042'' ! i) * 10 ^ (length ''042'' - 1 - i)) = 42"
    by (simp add: digit_val_def lessThan_Suc numeral_3_eq_3)
  from d v extract_numeric_order_first_run [of "''x.txt''" "''ab''" "''042''" "''x7.png''"]
  show ?thesis by (simp add: list_all_iff)
qed

subsection \<open>Collision resolver\<close>

lemma conflict_loop_first_free:
  assumes "\<not> ex (path_div parent (stem @ ''_'' @ str_nat k @ suffix))"
    and "counter \<le> k"
    and "\<forall>j. counter \<le> j \<and> j < k \<longrightarrow> ex (path_div parent (stem @ ''_'' @ str_nat j @ suffix))"
  shows "conflict_loop ex parent stem suffix counter
         = Some (path_div parent (stem @ ''_'' @ str_nat k @ suffix))"
  using assms(2,3)
proof (induction "k - counter" arbitrary: counter)
  case 0
  then have "counter = k" by simp
  with assms(1) show ?case by (subst conflict_loop.simps) (simp add: Let_def)
next
  case (Suc d)
  then have lt: "counter < k" by arith
  with Suc.prems have occupied: "ex (path_div parent (stem @ ''_'' @ str_nat counter @ suffix))"
    by simp
  have "conflict_loop ex parent stem suffix (counter + 1)
        = Some (path_div parent (stem @ ''_'' @ str_nat k @ suffix))"
  proof (rule Suc.hyps(1))
    show "d = k - (counter + 1)" using Suc.hyps(2) by arith
    show "counter + 1 \<le> k" using lt by arith
    show "\<forall>j. counter + 1 \<le> j \<and> j < k
            \<longrightarrow> ex (path_div parent (stem @ ''_'' @ str_nat j @ suffix))"
      using Suc.prems(2) by simp
  qed
  with occupied show ?case by (subst conflict_loop.simps) (simp add: Let_def)
qed

lemma handle_name_conflict_occupied:
  assumes "ex p" and "1 \<le> k" and "\<not> ex (suffixed_candidate p k)"
    and "\<forall>j. 1 \<le> j \<and> j < k \<longrightarrow> ex (suffixed_candidate p j)"
  shows "handle_name_conflict ex p = Some (suffixed_candidate p k)"
  using assms conflict_loop_first_free [of ex "path_parent p" "path_stem p" k "path_suffix p" 1]
  by (simp add: handle_name_conflict_def suffixed_candidate_def Let_def)

text \<open>
  Claim C4. Under an existence predicate for which some suffixed candidate
  \<^verbatim>\<open>parent/stem_k.ext\<close> with \<open>k \<ge> 1\<close> is free, the resolver returns: the desired path
  itself when it does not exist; otherwise the candidate with the smallest \<open>k \<ge> 1\<close> that
  does not exist; and in both cases a path that does not exist. When only
  \<^verbatim>\<open>photo1.png\<close> exists, resolving it gives \<^verbatim>\<open>photo1_1.png\<close>; when that exists as
  well, \<^verbatim>\<open>photo1_2.png\<close>.
\<close>

theorem handle_name_conflict_first_free:
  "((\<exists>k\<ge>1. \<not> ex (suffixed_candidate p k)) \<longrightarrow>
      (\<not> ex p \<longrightarrow> handle_name_conflict ex p = Some p)
    \<and> (ex p \<longrightarrow> (\<exists>k\<ge>1. handle_name_conflict ex p = Some (suffixed_candidate p k)
                     \<and> \<not> ex (suffixed_candidate p k)
                     \<and> (\<forall>j. 1 \<le> j \<and> j < k \<longrightarrow> ex (suffixed_candidate p j))))
    \<and> (\<exists>r. handle_name_conflict ex p = Some r \<and> \<not> ex r))
   \<and> handle_name_conflict (\<lambda>q. q = Path [] [''photos'', ''photo1.png''])
        (Path [] [''photos'', ''photo1.png''])
      = Some (Path [] [''photos'', ''photo1_1.png''])
   \<and> handle_name_conflict
        (\<lambda>q. q = Path [] [''photos'', ''photo1.png''] \<or> q = Path [] [''photos'', ''photo1_1.png''])
        (Path [] [''photos'', ''photo1.png''])
      = Some (Path [] [''photos'', ''photo1_2.png''])"
proof -
  have general: "(\<not> ex p \<longrightarrow> handle_name_conflict ex p = Some p)
    \<and> (ex p \<longrightarrow> (\<exists>k\<ge>1. handle_name_conflict ex p = Some (suffixed_candidate p k)
                     \<and> \<not> ex (suffixed_candidate p k)
                     \<and> (\<forall>j. 1 \<le> j \<and> j < k \<longrightarrow> ex (suffixed_candidate p j))))
    \<and> (\<exists>r. handle_name_conflict ex p = Some r \<and> \<not> ex r)"
    if free: "\<exists>k\<ge>1. \<not> ex (suffixed_candidate p k)"
  proof (cases "ex p")
    case False
    then show ?thesis by (simp add: handle_name_conflict_def)
  next
    case True
    define k where "k = (LEAST k. 1 \<le> k \<and> \<not> ex (suffixed_candidate p k))"
    from free have "\<exists>k. 1 \<le> k \<and> \<not> ex (suffixed_candidate p k)" by blast
    then have k: "1 \<le> k \<and> \<not> ex (suffixed_candidate p k)"
      unfolding k_def by (rule LeastI_ex)
    have least: "\<forall>j. 1 \<le> j \<and> j < k \<longrightarrow> ex (suffixed_candidate p j)"
    proof (intro allI impI)
      fix j assume j: "1 \<le> j \<and> j < k"
      then have "\<not> (1 \<le> j \<and> \<not> ex (suffixed_candidate p j))"
        unfolding k_def using not_less_Least by blast
      with j show "ex (suffixed_candidate p j)" by simp
    qed
    from True k least have "handle_name_conflict ex p = Some (suffixed_candidate p k)"
      by (intro handle_name_conflict_occupied) simp_all
    with True k least show ?thesis by auto
  qed
  let ?p = "Path [] [''photos'', ''photo1.png'']"
  have c1: "suffixed_candidate ?p 1 = Path [] [''photos'', ''photo1_1.png'']"
    and c2: "suffixed_candidate ?p 2 = Path [] [''photos'', ''photo1_2.png'']"
    by code_simp+
  have e1: "handle_name_conflict (\<lambda>q. q = ?p) ?p = Some (Path [] [''photos'', ''photo1_1.png''])"
    using handle_name_conflict_occupied [of "\<lambda>q. q = ?p" ?p 1] c1 by simp
  let ?ex2 = "\<lambda>q. q = ?p \<or> q = Path [] [''photos'', ''photo1_1.png'']"
  have occ: "\<forall>j. 1 \<le> j \<and> j < 2 \<longrightarrow> ?ex2 (suffixed_candidate ?p j)"
  proof (intro allI impI)
    fix j :: nat assume "1 \<le> j \<and> j < 2"
    then have "j = 1" by arith
    with c1 show "?ex2 (suffixed_candidate ?p j)" by simp
  qed
  have free2: "\<not> ?ex2 (suffixed_candidate ?p 2)" by (simp add: c2)
  have e2: "handle_name_conflict ?ex2 ?p = Some (Path [] [''photos'', ''photo1_2.png''])"
    using handle_name_conflict_occupied [of ?ex2 ?p 2, OF _ _ free2 occ] c2 by simp
  from general e1 e2 show ?thesis by blast
qed

text \<open>
  C4 where only \<^verbatim>\<open>photo1.png\<close> exists: the first suffixed candidate is free, and
  the resolver returns it.
\<close>

theorem handle_name_conflict_first_free_witness:
  "handle_name_conflict (\<lambda>q. q = Path [] [''photos'', ''photo1.png''])
        (Path [] [''photos'', ''photo1.png''])
      = Some (Path [] [''photos'', ''photo1_1.png''])
   \<and> (\<exists>k\<ge>1. \<not> (suffixed_candidate (Path [] [''photos'', ''photo1.png'']) k
                   = Path [] [''photos'', ''photo1.png'']))
   \<and> (\<exists>r. handle_name_conflict (\<lambda>q. q = Path [] [''photos'', ''photo1.png''])
            (Path [] [''photos'', ''photo1.png'']) = Some r
          \<and> r \<noteq> Path [] [''photos'', ''photo1.png''])"
proof -
  let ?p = "Path [] [''photos'', ''photo1.png'']"
  have c1: "suffixed_candidate ?p 1 = Path [] [''photos'', ''photo1_1.png'']"
    by code_simp
  then have free: "\<exists>k\<ge>1. \<not> (suffixed_candidate ?p k = ?p)"
    by (intro exI [of _ 1]) simp
  from free handle_name_conflict_first_free [of "\<lambda>q. q = ?p" ?p]
  show ?thesis by blast
qed

subsection \<open>Rename executor\<close>

lemma execute_one_missing:
  "\<not> os_exists os (disk st) (source operation) \<Longrightarrow>
   execute_one os st operation
   = mark_failed st operation (''Source file not found: '' @ path_name (source operation))"
  by (simp add: execute_one_def)

lemma execute_one_same:
  "os_exists os (disk st) (source operation) \<Longrightarrow> source operation = target operation \<Longrightarrow>
   execute_one os st operation
   = (st\<lparr>skipped_count := skipped_count st + 1\<rparr>, operation\<lparr>status := ''skipped''\<rparr>)"
  by (simp add: execute_one_def)

lemma execute_one_renamed:
  "os_exists os (disk st) (source operation) \<Longrightarrow> source operation \<noteq> target operation \<Longrightarrow>
   os_rename os (disk st) (source operation) (target operation) = Inr fs' \<Longrightarrow>
   execute_one os st operation
   = (st\<lparr>disk := fs', successful_count := successful_count st + 1\<rparr>,
      operation\<lparr>status := ''success''\<rparr>)"
  by (simp add: execute_one_def)

lemma execute_one_raised:
  "os_exists os (disk st) (source operation) \<Longrightarrow> source operation \<noteq> target operation \<Longrightarrow>
   os_rename os (disk st) (source operation) (target operation) = Inl e \<Longrightarrow>
   execute_one os st operation
   = mark_failed st operation (rename_error_text e (path_name (source operation)))"
  by (cases e) (simp_all add: execute_one_def rename_error_text_def)

text \<open>Every iteration ends in one of four ways; each fixes the status and the counters.\<close>

lemma execute_one_outcome:
  assumes "execute_one os st operation = (st1, operation1)"
  shows "source operation1 = source operation \<and> target operation1 = target operation \<and>
    ((status operation1 = ''success'' \<and> error operation1 = error operation
        \<and> successful_count st1 = successful_count st + 1 \<and> failed_count st1 = failed_count st
        \<and> skipped_count st1 = skipped_count st \<and> error_messages st1 = error_messages st)
     \<or> (status operation1 = ''skipped'' \<and> error operation1 = error operation
        \<and> successful_count st1 = successful_count st \<and> failed_count st1 = failed_count st
        \<and> skipped_count st1 = skipped_count st + 1 \<and> error_messages st1 = error_messages st
        \<and> disk st1 = disk st)
     \<or> (status operation1 = ''failed''
        \<and> successful_count st1 = successful_count st \<and> failed_count st1 = failed_count st + 1
        \<and> skipped_count st1 = skipped_count st \<and> disk st1 = disk st
        \<and> (\<exists>m. error operation1 = Some m \<and> error_messages st1 = error_messages st @ [m])))"
proof (cases "os_exists os (disk st) (source operation)")
  case False
  with assms show ?thesis by (auto simp: execute_one_missing mark_failed_def)
next
  case ex: True
  show ?thesis
  proof (cases "source operation = target operation")
    case True
    with ex assms show ?thesis by (auto simp: execute_one_same)
  next
    case neq: False
    show ?thesis
    proof (cases "os_rename os (disk st) (source operation) (target operation)")
      case (Inl e)
      with ex neq assms show ?thesis by (auto simp: execute_one_raised mark_failed_def)
    next
      case (Inr fs')
      with ex neq assms show ?thesis by (auto simp: execute_one_renamed)
    qed
  qed
qed

lemma execute_loop_append:
  "execute_loop os st (xs @ ys)
   = (let (st1, xs') = execute_loop os st xs;
          (st2, ys') = execute_loop os st1 ys
      in (st2, xs' @ ys'))"
  by (induction xs arbitrary: st) (auto simp: Let_def split: prod.splits)

lemma execute_loop_length_eq:
  "execute_loop os st ops = (st', ops') \<Longrightarrow> length ops' = length ops"
  by (induction ops arbitrary: st st' ops') (fastforce simp: Let_def split: prod.splits)+

lemma execute_loop_length: "length (snd (execute_loop os st ops)) = length ops"
  using execute_loop_length_eq [of os st ops] by (cases "execute_loop os st ops") simp

lemma execute_loop_snoc:
  "execute_loop os st (xs @ [x])
   = (let (st1, xs') = execute_loop os st xs;
          (st2, x') = execute_one os st1 x
      in (st2, xs' @ [x']))"
  by (simp add: execute_loop_append Let_def split: prod.splits)

text \<open>
  The operation at position \<open>i\<close> is processed by one iteration, started in the state the
  first \<open>i\<close> operations left behind, whatever their outcomes were.
\<close>

lemma execute_loop_nth:
  assumes "i < length ops"
  shows "snd (execute_loop os st ops) ! i
           = snd (execute_one os (fst (execute_loop os st (take i ops))) (ops ! i))"
    and "fst (execute_loop os st (take (Suc i) ops))
           = fst (execute_one os (fst (execute_loop os st (take i ops))) (ops ! i))"
proof -
  from assms have split: "ops = take i ops @ (ops ! i) # drop (Suc i) ops"
    by (simp add: id_take_nth_drop)
  have len: "length (snd (execute_loop os st (take i ops))) = i"
    using assms by (simp add: execute_loop_length)
  have "snd (execute_loop os st (take i ops @ (ops ! i) # drop (Suc i) ops)) ! i
        = snd (execute_one os (fst (execute_loop os st (take i ops))) (ops ! i))"
    using len by (auto simp: execute_loop_append Let_def nth_append split: prod.splits)
  with split show "snd (execute_loop os st ops) ! i
           = snd (execute_one os (fst (execute_loop os st (take i ops))) (ops ! i))"
    by simp
  from assms have "take (Suc i) ops = take i ops @ [ops ! i]"
    by (simp add: take_Suc_conv_app_nth)
  then show "fst (execute_loop os st (take (Suc i) ops))
           = fst (execute_one os (fst (execute_loop os st (take i ops))) (ops ! i))"
    by (simp add: execute_loop_snoc Let_def split: prod.splits)
qed

lemma execute_renames_operations:
  "rename_operations (fst (execute_renames os fs self))
   = snd (execute_loop os (initial_state fs) (rename_operations self))"
  by (cases "rename_operations self = []")
     (auto simp: execute_renames_def Let_def split: prod.splits)

lemma execute_loop_tally:
  "execute_loop os st ops = (st', ops') \<Longrightarrow>
   successful_count st' = successful_count st + length (filter (\<lambda>x. status x = ''success'') ops')
   \<and> failed_count st' = failed_count st + length (filter (\<lambda>x. status x = ''failed'') ops')
   \<and> skipped_count st' = skipped_count st + length (filter (\<lambda>x. status x = ''skipped'') ops')
   \<and> length ops' = length (filter (\<lambda>x. status x = ''success'') ops')
        + length (filter (\<lambda>x. status x = ''failed'') ops')
        + length (filter (\<lambda>x. status x = ''skipped'') ops')
   \<and> map Some (error_messages st')
       = map Some (error_messages st) @ map error (filter (\<lambda>x. status x = ''failed'') ops')"
proof (induction ops arbitrary: st st' ops')
  case Nil
  then show ?case by simp
next
  case (Cons x xs)
  obtain st1 x1 where one: "execute_one os st x = (st1, x1)"
    by (cases "execute_one os st x")
  obtain st2 xs2 where rest: "execute_loop os st1 xs = (st2, xs2)"
    by (cases "execute_loop os st1 xs")
  from Cons.prems one rest have res: "st' = st2" "ops' = x1 # xs2"
    by simp_all
  note ih = Cons.IH [OF rest]
  note out = execute_one_outcome [OF one]
  from out consider
      (success) "status x1 = ''success''" "successful_count st1 = successful_count st + 1"
        "failed_count st1 = failed_count st" "skipped_count st1 = skipped_count st"
        "error_messages st1 = error_messages st"
    | (skipped) "status x1 = ''skipped''" "successful_count st1 = successful_count st"
        "failed_count st1 = failed_count st" "skipped_count st1 = skipped_count st + 1"
        "error_messages st1 = error_messages st"
    | (failed) m where "status x1 = ''failed''" "successful_count st1 = successful_count st"
        "failed_count st1 = failed_count st + 1" "skipped_count st1 = skipped_count st"
        "error x1 = Some m" "error_messages st1 = error_messages st @ [m]"
    by blast
  then show ?case
  proof cases
    case success
    with ih res show ?thesis by simp
  next
    case skipped
    with ih res show ?thesis by simp
  next
    case failed
    with ih res show ?thesis by simp
  qed
qed

text \<open>
  Claim C8. The executor returns one processed operation for every operation of the plan,
  in the plan's order and with the same source and target, and each has a final status. The
  operation at position \<open>i\<close> is decided in the state left by the operations before it: if its
  source does not exist it is marked failed with the source-not-found message; otherwise, if
  source and target are the same path, it is marked skipped, the file system is untouched
  and the outcome does not depend on what a rename would do; otherwise the rename is
  attempted, and it is marked success, or failed with the non-empty message of the handler
  for the exception raised. This holds at every position, whatever happened before it.
\<close>

theorem execute_renames_every_operation:
  "length (rename_operations (fst (execute_renames os fs self))) = length (rename_operations self)
   \<and> (i < length (rename_operations self) \<longrightarrow>
       (let operation = rename_operations self ! i;
            finished = rename_operations (fst (execute_renames os fs self)) ! i;
            st = state_before os fs (rename_operations self) i;
            st' = state_before os fs (rename_operations self) (Suc i)
        in source finished = source operation \<and> target finished = target operation
         \<and> (status finished = ''success'' \<or> status finished = ''failed''
              \<or> status finished = ''skipped'')
         \<and> (\<not> os_exists os (disk st) (source operation) \<longrightarrow>
              status finished = ''failed''
              \<and> error finished
                  = Some (''Source file not found: '' @ path_name (source operation))
              \<and> disk st' = disk st)
         \<and> (os_exists os (disk st) (source operation) \<and> source operation = target operation \<longrightarrow>
              status finished = ''skipped'' \<and> disk st' = disk st
              \<and> (\<forall>r. execute_one (os\<lparr>os_rename := r\<rparr>) st operation
                       = execute_one os st operation))
         \<and> (os_exists os (disk st) (source operation) \<and> source operation \<noteq> target operation \<longrightarrow>
              (case os_rename os (disk st) (source operation) (target operation) of
                 Inr fs' \<Rightarrow> status finished = ''success'' \<and> disk st' = fs'
               | Inl e \<Rightarrow>
                   status finished = ''failed''
                   \<and> error finished
                       = Some (rename_error_text e (path_name (source operation)))
                   \<and> rename_error_text e (path_name (source operation)) \<noteq> []
                   \<and> disk st' = disk st))))"
proof -
  let ?plan = "rename_operations self"
  let ?st = "state_before os fs ?plan i"
  let ?op = "?plan ! i"
  have len: "length (rename_operations (fst (execute_renames os fs self))) = length ?plan"
    by (simp add: execute_renames_operations execute_loop_length)
  have body: "?thesis" if i: "i < length ?plan"
  proof -
    have fin: "rename_operations (fst (execute_renames os fs self)) ! i
               = snd (execute_one os ?st ?op)"
      using execute_loop_nth(1) [OF i] by (simp add: execute_renames_operations state_before_def)
    have nxt: "state_before os fs ?plan (Suc i) = fst (execute_one os ?st ?op)"
      using execute_loop_nth(2) [OF i] by (simp add: state_before_def)
    obtain st1 op1 where one: "execute_one os ?st ?op = (st1, op1)"
      by (cases "execute_one os ?st ?op")
    note out = execute_one_outcome [OF one]
    have a: "source op1 = source ?op \<and> target op1 = target ?op
         \<and> (status op1 = ''success'' \<or> status op1 = ''failed'' \<or> status op1 = ''skipped'')"
      using out by blast
    have b: "\<not> os_exists os (disk ?st) (source ?op) \<longrightarrow>
              status op1 = ''failed''
              \<and> error op1 = Some (''Source file not found: '' @ path_name (source ?op))
              \<and> disk st1 = disk ?st"
      using one by (auto simp: execute_one_missing mark_failed_def)
    have c: "os_exists os (disk ?st) (source ?op) \<and> source ?op = target ?op \<longrightarrow>
              status op1 = ''skipped'' \<and> disk st1 = disk ?st
              \<and> (\<forall>r. execute_one (os\<lparr>os_rename := r\<rparr>) ?st ?op = execute_one os ?st ?op)"
      using one by (auto simp: execute_one_same)
    have d: "os_exists os (disk ?st) (source ?op) \<and> source ?op \<noteq> target ?op \<longrightarrow>
              (case os_rename os (disk ?st) (source ?op) (target ?op) of
                 Inr fs' \<Rightarrow> status op1 = ''success'' \<and> disk st1 = fs'
               | Inl e \<Rightarrow>
                   status op1 = ''failed''
                   \<and> error op1 = Some (rename_error_text e (path_name (source ?op)))
                   \<and> rename_error_text e (path_name (source ?op)) \<noteq> []
                   \<and> disk st1 = disk ?st)"
    proof (intro impI, elim conjE)
      assume ex: "os_exists os (disk ?st) (source ?op)" and neq: "source ?op \<noteq> target ?op"
      show "case os_rename os (disk ?st) (source ?op) (target ?op) of
                 Inr fs' \<Rightarrow> status op1 = ''success'' \<and> disk st1 = fs'
               | Inl e \<Rightarrow>
                   status op1 = ''failed''
                   \<and> error op1 = Some (rename_error_text e (path_name (source ?op)))
                   \<and> rename_error_text e (path_name (source ?op)) \<noteq> []
                   \<and> disk st1 = disk ?st"
      proof (cases "os_rename os (disk ?st) (source ?op) (target ?op)")
        case (Inl e)
        have "rename_error_text e (path_name (source ?op)) \<noteq> []"
          by (cases e) (simp_all add: rename_error_text_def)
        with Inl ex neq one show ?thesis
          by (auto simp: execute_one_raised mark_failed_def)
      next
        case (Inr fs')
        with ex neq one show ?thesis by (auto simp: execute_one_renamed)
      qed
    qed
    from len a b c d show ?thesis
      by (simp only: Let_def fin nxt one fst_conv snd_conv) blast
  qed
  from len body show ?thesis by blast
qed

text \<open>
  C8 on a plan of three operations whose first source is missing and whose second
  operation has equal source and target: the first is marked failed, and the third, a real
  rename, is still carried out and marked success.
\<close>

theorem execute_renames_every_operation_witness:
  "status (rename_operations (fst (execute_renames listing_os (files_of [''same.png'', ''2.PNG''])
       (renamer ''photo{n}'' [pending_op ''gone.png'' ''photo1.png'',
          pending_op ''same.png'' ''same.png'', pending_op ''2.PNG'' ''photo2.png'']))) ! 0)
     = ''failed''
   \<and> status (rename_operations (fst (execute_renames listing_os (files_of [''same.png'', ''2.PNG''])
       (renamer ''photo{n}'' [pending_op ''gone.png'' ''photo1.png'',
          pending_op ''same.png'' ''same.png'', pending_op ''2.PNG'' ''photo2.png'']))) ! 2)
     = ''success''"
proof -
  let ?fs = "files_of [''same.png'', ''2.PNG'']"
  let ?plan = "[pending_op ''gone.png'' ''photo1.png'',
          pending_op ''same.png'' ''same.png'', pending_op ''2.PNG'' ''photo2.png'']"
  let ?self = "renamer ''photo{n}'' ?plan"
  have plan: "rename_operations ?self = ?plan" by (simp add: renamer_def)
  have missing: "\<not> os_exists listing_os (disk (state_before listing_os ?fs ?plan 0))
                    (source (?plan ! 0))"
    by code_simp
  have present: "os_exists listing_os (disk (state_before listing_os ?fs ?plan 2))
                    (source (?plan ! 2))"
    and differ: "source (?plan ! 2) \<noteq> target (?plan ! 2)"
    and renamed: "os_rename listing_os (disk (state_before listing_os ?fs ?plan 2))
                    (source (?plan ! 2)) (target (?plan ! 2))
                  = Inr (files_of [''same.png'', ''photo2.png''])"
    by code_simp+
  have first: "status (rename_operations (fst (execute_renames listing_os ?fs ?self)) ! 0)
               = ''failed''"
    using execute_renames_every_operation [of listing_os ?fs ?self 0] missing
    by (simp add: plan Let_def)
  have third: "status (rename_operations (fst (execute_renames listing_os ?fs ?self)) ! 2)
               = ''success''"
    using execute_renames_every_operation [of listing_os ?fs ?self 2] present differ renamed
    by (simp add: plan Let_def)
  from first third show ?thesis by simp
qed

text \<open>
  Claim C9. In the result of the executor, \<open>total_files\<close> is the length of the plan and the
  sum of \<open>successful\<close>, \<open>failed\<close> and \<open>skipped\<close>; each of the three counts is the number of
  operations whose final status is the corresponding one; and \<open>errors\<close> lists the error
  strings of the failed operations, one each, in the order of the plan.
\<close>

theorem execute_renames_result_tally:
  "(case execute_renames os fs self of
      (self', result, fs') \<Rightarrow>
        total_files result = length (rename_operations self)
        \<and> total_files result = successful result + failed result + skipped result
        \<and> successful result
            = length (filter (\<lambda>x. status x = ''success'') (rename_operations self'))
        \<and> failed result
            = length (filter (\<lambda>x. status x = ''failed'') (rename_operations self'))
        \<and> skipped result
            = length (filter (\<lambda>x. status x = ''skipped'') (rename_operations self'))
        \<and> map Some (errors result)
            = map error (filter (\<lambda>x. status x = ''failed'') (rename_operations self')))"
proof (cases "rename_operations self = []")
  case True
  then show ?thesis by (simp add: execute_renames_def)
next
  case False
  obtain st ops where run: "execute_loop os (initial_state fs) (rename_operations self) = (st, ops)"
    by (cases "execute_loop os (initial_state fs) (rename_operations self)")
  note tally = execute_loop_tally [OF run]
  have len: "length ops = length (rename_operations self)"
    using execute_loop_length_eq [OF run] .
  from False run tally len show ?thesis
    by (simp add: execute_renames_def Let_def initial_state_def)
qed

subsection \<open>File discovery\<close>

text \<open>
  Claim C6. When the directory can be listed, discovery returns the regular files of the
  listing sorted by sequence key in non-decreasing order, and the sort is stable: for
  every key, the files with that key appear in their directory-listing order. The listing
  \<^verbatim>\<open>2.png, 10.png, 1.png\<close> is returned as \<^verbatim>\<open>1.png, 2.png, 10.png\<close>, and the two
  digit-free names \<^verbatim>\<open>b.txt, a.txt\<close> keep their listing order.
\<close>

theorem discover_files_sorted_stable:
  "(os_iterdir os fs (folder_path self) = Inr all_items \<longrightarrow>
      (\<exists>files. discover_files os fs self = Inr files
         \<and> sorted (map (\<lambda>f. extract_numeric_order (path_name f)) files)
         \<and> set files = set (filter (os_is_file os fs) all_items)
         \<and> length files = length (filter (os_is_file os fs) all_items)
         \<and> (\<forall>k. filter (\<lambda>f. extract_numeric_order (path_name f) = k) files
                = filter (\<lambda>f. extract_numeric_order (path_name f) = k)
                    (filter (os_is_file os fs) all_items))))
   \<and> discover_files listing_os (files_of [''2.png'', ''10.png'', ''1.png'']) (renamer ''photo{n}'' [])
      = Inr [in_photos ''1.png'', in_photos ''2.png'', in_photos ''10.png'']
   \<and> discover_files listing_os (files_of [''b.txt'', ''a.txt'']) (renamer ''photo{n}'' [])
      = Inr [in_photos ''b.txt'', in_photos ''a.txt'']"
proof -
  let ?key = "\<lambda>f. extract_numeric_order (path_name f)"
  have general: "\<exists>files. discover_files os fs self = Inr files
         \<and> sorted (map ?key files)
         \<and> set files = set (filter (os_is_file os fs) all_items)
         \<and> length files = length (filter (os_is_file os fs) all_items)
         \<and> (\<forall>k. filter (\<lambda>f. ?key f = k) files
                = filter (\<lambda>f. ?key f = k) (filter (os_is_file os fs) all_items))"
    if listed: "os_iterdir os fs (folder_path self) = Inr all_items"
  proof -
    let ?files = "filter (os_is_file os fs) all_items"
    have res: "discover_files os fs self = Inr (sort_key ?key ?files)"
      using listed by (simp add: discover_files_def)
    have st: "\<forall>k. filter (\<lambda>f. ?key f = k) (sort_key ?key ?files)
                  = filter (\<lambda>f. ?key f = k) ?files"
      by (simp add: sort_key_stable)
    have so: "sorted (map ?key (sort_key ?key ?files))"
      by (rule sorted_sort_key)
    from res st so show ?thesis by simp
  qed
  have e1: "discover_files listing_os (files_of [''2.png'', ''10.png'', ''1.png''])
              (renamer ''photo{n}'' [])
            = Inr [in_photos ''1.png'', in_photos ''2.png'', in_photos ''10.png'']"
    by code_simp
  have e2: "discover_files listing_os (files_of [''b.txt'', ''a.txt'']) (renamer ''photo{n}'' [])
            = Inr [in_photos ''b.txt'', in_photos ''a.txt'']"
    by code_simp
  from general e1 e2 show ?thesis by blast
qed

text \<open>
  C6 on the listing \<^verbatim>\<open>b.txt, 2.png, a.txt, 1.png\<close>: the digit-free names (key 0) come
  first, in listing order.
\<close>

theorem discover_files_sorted_stable_witness:
  "os_iterdir listing_os (files_of [''b.txt'', ''2.png'', ''a.txt'', ''1.png''])
       (folder_path (renamer ''photo{n}'' []))
     = Inr [in_photos ''b.txt'', in_photos ''2.png'', in_photos ''a.txt'', in_photos ''1.png'']
   \<and> (\<exists>files. discover_files listing_os (files_of [''b.txt'', ''2.png'', ''a.txt'', ''1.png''])
                 (renamer ''photo{n}'' []) = Inr files
        \<and> sorted (map (\<lambda>f. extract_numeric_order (path_name f)) files)
        \<and> filter (\<lambda>f. extract_numeric_order (path_name f) = 0) files
            = [in_photos ''b.txt'', in_photos ''a.txt''])"
proof -
  let ?fs = "files_of [''b.txt'', ''2.png'', ''a.txt'', ''1.png'']"
  let ?items = "[in_photos ''b.txt'', in_photos ''2.png'', in_photos ''a.txt'', in_photos ''1.png'']"
  have listed: "os_iterdir listing_os ?fs (folder_path (renamer ''photo{n}'' [])) = Inr ?items"
    by code_simp
  have zero: "filter (\<lambda>f. extract_numeric_order (path_name f) = 0)
                (filter (os_is_file listing_os ?fs) ?items)
              = [in_photos ''b.txt'', in_photos ''a.txt'']"
    by code_simp
  from discover_files_sorted_stable [of listing_os ?fs "renamer ''photo{n}'' []" ?items] listed
  obtain files where f: "discover_files listing_os ?fs (renamer ''photo{n}'' []) = Inr files"
    "sorted (map (\<lambda>f. extract_numeric_order (path_name f)) files)"
    "\<forall>k. filter (\<lambda>f. extract_numeric_order (path_name f) = k) files
                = filter (\<lambda>f. extract_numeric_order (path_name f) = k)
                    (filter (os_is_file listing_os ?fs) ?items)"
    by blast
  from f(3) zero have "filter (\<lambda>f. extract_numeric_order (path_name f) = 0) files
            = [in_photos ''b.txt'', in_photos ''a.txt'']"
    by simp
  with listed f(1,2) show ?thesis by blast
qed

subsection \<open>Rename planner\<close>

lemma plan_operations_Cons:
  "plan_operations ex folder pat index (f # files) =
     (case handle_name_conflict ex (candidate_path folder pat index f) of
        None \<Rightarrow> None
      | Some t \<Rightarrow>
          (case plan_operations ex folder pat (Suc index) files of
             None \<Rightarrow> None
           | Some ops \<Rightarrow>
               Some (\<lparr>source = f, target = t, status = ''pending'', error = None\<rparr> # ops)))"
  by (simp add: candidate_path_def candidate_name_def Let_def split: option.splits)

text \<open>What a returned plan looks like, position by position.\<close>

lemma plan_operations_nth:
  assumes "plan_operations ex folder pat index files = Some ops"
  shows "length ops = length files"
    and "i < length files \<Longrightarrow>
         source (ops ! i) = files ! i
         \<and> handle_name_conflict ex (candidate_path folder pat (index + i) (files ! i))
             = Some (target (ops ! i))
         \<and> status (ops ! i) = ''pending'' \<and> error (ops ! i) = None"
  using assms
proof (induction files arbitrary: index ops i)
  case Nil
  { case 1 then show ?case by simp }
  { case 2 then show ?case by simp }
next
  case (Cons f files)
  { case 1
    then show ?case
      by (auto simp: plan_operations_Cons simp del: plan_operations.simps
          split: option.splits dest: Cons.IH(1)) }
  { case 2
    from 2(2) obtain t rest where
        t: "handle_name_conflict ex (candidate_path folder pat index f) = Some t"
      and rest: "plan_operations ex folder pat (Suc index) files = Some rest"
      and ops: "ops = \<lparr>source = f, target = t, status = ''pending'', error = None\<rparr> # rest"
      by (auto simp: plan_operations_Cons simp del: plan_operations.simps split: option.splits)
    show ?case
    proof (cases i)
      case 0
      with t ops show ?thesis by simp
    next
      case (Suc j)
      with 2(1) have "j < length files" by simp
      from Cons.IH(2) [OF this rest] Suc ops show ?thesis by simp
    qed }
qed


lemma generate_rename_plan_nth:
  assumes "generate_rename_plan os fs self = Some (Inr self')"
  obtains files where "discover_files os fs self = Inr files"
    and "self' = self\<lparr>rename_operations := rename_operations self'\<rparr>"
    and "length (rename_operations self') = length files"
    and "\<And>i. i < length files \<Longrightarrow>
           source (rename_operations self' ! i) = files ! i
           \<and> handle_name_conflict (os_exists os fs)
                (candidate_path (folder_path self) (pattern self) (i + 1) (files ! i))
               = Some (target (rename_operations self' ! i))
           \<and> status (rename_operations self' ! i) = ''pending''
           \<and> error (rename_operations self' ! i) = None"
proof -
  from assms obtain files ops where found: "discover_files os fs self = Inr files"
    and plan: "plan_operations (os_exists os fs) (folder_path self) (pattern self) 1 files
               = Some ops"
    and self': "self' = self\<lparr>rename_operations := ops\<rparr>"
    by (auto simp: generate_rename_plan_def split: sum.splits option.splits)
  from self' have ops: "rename_operations self' = ops" by simp
  show thesis
  proof (rule that [OF found])
    show "self' = self\<lparr>rename_operations := rename_operations self'\<rparr>"
      using self' by simp
    show "length (rename_operations self') = length files"
      using plan_operations_nth(1) [OF plan] ops by simp
    fix i assume "i < length files"
    from plan_operations_nth(2) [OF plan this] ops
    show "source (rename_operations self' ! i) = files ! i
           \<and> handle_name_conflict (os_exists os fs)
                (candidate_path (folder_path self) (pattern self) (i + 1) (files ! i))
               = Some (target (rename_operations self' ! i))
           \<and> status (rename_operations self' ! i) = ''pending''
           \<and> error (rename_operations self' ! i) = None"
      by (simp add: add.commute)
  qed
qed

lemma handle_name_conflict_first:
  assumes "ex p" and "\<not> ex (suffixed_candidate p 1)"
  shows "handle_name_conflict ex p = Some (suffixed_candidate p 1)"
  using handle_name_conflict_occupied [of ex p 1] assms by simp







subsection \<open>Patterns that leave the directory\<close>


subsection \<open>Running the planner on its own output\<close>

lemma conflict_loop_free:
  assumes "conflict_loop ex parent stem suffix counter = Some r"
  shows "\<not> ex r"
  by (rule conflict_loop.raw_induct
        [where P = "\<lambda>ex parent stem suffix counter r. \<not> ex r", OF _ assms])
     (fastforce simp: Let_def split: if_splits)

lemma handle_name_conflict_free: "handle_name_conflict ex p = Some r \<Longrightarrow> \<not> ex r"
  by (auto simp: handle_name_conflict_def Let_def split: if_splits dest: conflict_loop_free)

text \<open>
  A planned target never exists when the plan is made, so an operation whose source
  exists never has its source as target: right after planning, the executor's test
  \<^verbatim>\<open>operation.source == operation.target\<close> cannot succeed for a file that is there.
\<close>

lemma planned_source_differs:
  assumes "generate_rename_plan os fs self = Some (Inr self')"
    and "i < length (rename_operations self')"
    and "os_exists os fs (source (rename_operations self' ! i))"
  shows "source (rename_operations self' ! i) \<noteq> target (rename_operations self' ! i)"
  using assms(1)
proof (rule generate_rename_plan_nth)
  fix files
  assume len: "length (rename_operations self') = length files"
    and each: "\<And>i. i < length files \<Longrightarrow>
           source (rename_operations self' ! i) = files ! i
           \<and> handle_name_conflict (os_exists os fs)
                (candidate_path (folder_path self) (pattern self) (i + 1) (files ! i))
               = Some (target (rename_operations self' ! i))
           \<and> status (rename_operations self' ! i) = ''pending''
           \<and> error (rename_operations self' ! i) = None"
  from assms(2) len have "i < length files" by simp
  from each [OF this] have "\<not> os_exists os fs (target (rename_operations self' ! i))"
    by (auto dest: handle_name_conflict_free)
  with assms(3) show ?thesis by auto
qed

text \<open>
  Claim C2, evaluated where it fails. In a directory holding exactly \<^verbatim>\<open>photo1.png\<close> and
  \<^verbatim>\<open>photo2.png\<close>, the pattern \<^verbatim>\<open>photo{n}\<close> gives each file its own name as candidate;
  that path exists, so the resolver moves on to \<^verbatim>\<open>photo1_1.png\<close> and
  \<^verbatim>\<open>photo2_1.png\<close>. No operation of the plan has equal source and target, and executing
  it renames both files: \<open>successful = 2\<close> and \<open>skipped = 0\<close>.
\<close>

theorem second_run_renames_again:
  "generate_rename_plan listing_os (files_of [''photo1.png'', ''photo2.png''])
       (renamer ''photo{n}'' [])
     = Some (Inr (renamer ''photo{n}''
         [pending_op ''photo1.png'' ''photo1_1.png'', pending_op ''photo2.png'' ''photo2_1.png'']))
   \<and> source (pending_op ''photo1.png'' ''photo1_1.png'')
       \<noteq> target (pending_op ''photo1.png'' ''photo1_1.png'')
   \<and> source (pending_op ''photo2.png'' ''photo2_1.png'')
       \<noteq> target (pending_op ''photo2.png'' ''photo2_1.png'')
   \<and> snd (execute_renames listing_os (files_of [''photo1.png'', ''photo2.png''])
          (renamer ''photo{n}''
             [pending_op ''photo1.png'' ''photo1_1.png'',
              pending_op ''photo2.png'' ''photo2_1.png'']))
      = (\<lparr>total_files = 2, successful = 2, failed = 0, skipped = 0, errors = []\<rparr>,
         files_of [''photo1_1.png'', ''photo2_1.png''])"
proof -
  let ?fs = "files_of [''photo1.png'', ''photo2.png'']"
  let ?ex = "os_exists listing_os ?fs"
  let ?self = "renamer ''photo{n}'' []"
  have found: "discover_files listing_os ?fs ?self
               = Inr [in_photos ''photo1.png'', in_photos ''photo2.png'']"
    by code_simp
  have c1: "candidate_path (folder_path ?self) (pattern ?self) (Suc 0) (in_photos ''photo1.png'')
            = in_photos ''photo1.png''"
    and c2: "candidate_path (folder_path ?self) (pattern ?self) (Suc (Suc 0))
               (in_photos ''photo2.png'')
            = in_photos ''photo2.png''"
    by code_simp+
  have x1: "?ex (in_photos ''photo1.png'')" and x2: "?ex (in_photos ''photo2.png'')"
    and s1: "suffixed_candidate (in_photos ''photo1.png'') 1 = in_photos ''photo1_1.png''"
    and s2: "suffixed_candidate (in_photos ''photo2.png'') 1 = in_photos ''photo2_1.png''"
    and n1: "\<not> ?ex (in_photos ''photo1_1.png'')" and n2: "\<not> ?ex (in_photos ''photo2_1.png'')"
    by code_simp+
  have r1: "handle_name_conflict ?ex (in_photos ''photo1.png'')
            = Some (in_photos ''photo1_1.png'')"
    using handle_name_conflict_first [of ?ex "in_photos ''photo1.png''"] x1 n1 s1 by simp
  have r2: "handle_name_conflict ?ex (in_photos ''photo2.png'')
            = Some (in_photos ''photo2_1.png'')"
    using handle_name_conflict_first [of ?ex "in_photos ''photo2.png''"] x2 n2 s2 by simp
  have "plan_operations ?ex (folder_path ?self) (pattern ?self) (Suc 0)
          [in_photos ''photo1.png'', in_photos ''photo2.png'']
        = Some [pending_op ''photo1.png'' ''photo1_1.png'',
                pending_op ''photo2.png'' ''photo2_1.png'']"
    by (simp add: plan_operations_Cons c1 c2 r1 r2 pending_op_def del: plan_operations.simps(2))
  with found have plan: "generate_rename_plan listing_os ?fs ?self
     = Some (Inr (renamer ''photo{n}''
         [pending_op ''photo1.png'' ''photo1_1.png'', pending_op ''photo2.png'' ''photo2_1.png'']))"
    by (simp add: generate_rename_plan_def renamer_def)
  have d1: "source (pending_op ''photo1.png'' ''photo1_1.png'')
       \<noteq> target (pending_op ''photo1.png'' ''photo1_1.png'')"
    and d2: "source (pending_op ''photo2.png'' ''photo2_1.png'')
       \<noteq> target (pending_op ''photo2.png'' ''photo2_1.png'')"
    by code_simp+
  have run: "snd (execute_renames listing_os ?fs
          (renamer ''photo{n}''
             [pending_op ''photo1.png'' ''photo1_1.png'',
              pending_op ''photo2.png'' ''photo2_1.png'']))
      = (\<lparr>total_files = 2, successful = 2, failed = 0, skipped = 0, errors = []\<rparr>,
         files_of [''photo1_1.png'', ''photo2_1.png''])"
    by code_simp
  from plan d1 d2 run show ?thesis by simp
qed

subsection \<open>Patterns without the token\<close>

lemma str_replace_absent: "\<not> str_contains s old \<Longrightarrow> str_replace old new s = s"
  by (induction s) auto

lemma candidate_name_no_token:
  "\<not> str_contains pat ''{n}'' \<Longrightarrow>
   candidate_name pat i f = pat @ normalize_extension (path_suffix f)"
  by (simp add: candidate_name_def str_replace_absent)

text \<open>
  Claim C3, as amended. When the pattern has no occurrence of \<^verbatim>\<open>{n}\<close>, the candidate
  name before the extension is the pattern itself, for every index. In a returned plan,
  each target is the resolver's answer, against the files existing when the plan is made,
  for the directory joined with the pattern and the normalized extension of the source;
  so two files with the same normalized extension get the same target path.
\<close>

theorem plan_without_token_shares_targets:
  "(\<not> str_contains pat ''{n}'' \<longrightarrow>
      candidate_name pat i f = pat @ normalize_extension (path_suffix f))
   \<and> (\<not> str_contains (pattern self) ''{n}''
       \<and> generate_rename_plan os fs self = Some (Inr self')
       \<and> i < length (rename_operations self') \<and> j < length (rename_operations self')
      \<longrightarrow> handle_name_conflict (os_exists os fs)
            (path_div (folder_path self)
               (pattern self
                @ normalize_extension (path_suffix (source (rename_operations self' ! i)))))
          = Some (target (rename_operations self' ! i))
        \<and> (normalize_extension (path_suffix (source (rename_operations self' ! i)))
             = normalize_extension (path_suffix (source (rename_operations self' ! j)))
           \<longrightarrow> target (rename_operations self' ! i) = target (rename_operations self' ! j)))"
proof -
  let ?ops = "rename_operations self'"
  let ?ex = "os_exists os fs"
  let ?cand = "\<lambda>k. path_div (folder_path self)
                 (pattern self @ normalize_extension (path_suffix (source (?ops ! k))))"
  have planned: "handle_name_conflict ?ex (?cand k) = Some (target (?ops ! k))"
    if no: "\<not> str_contains (pattern self) ''{n}''"
      and plan: "generate_rename_plan os fs self = Some (Inr self')"
      and k: "k < length ?ops" for k
    using plan
  proof (rule generate_rename_plan_nth)
    fix files
    assume len: "length ?ops = length files"
      and each: "\<And>i. i < length files \<Longrightarrow>
           source (?ops ! i) = files ! i
           \<and> handle_name_conflict ?ex
                (candidate_path (folder_path self) (pattern self) (i + 1) (files ! i))
               = Some (target (?ops ! i))
           \<and> status (?ops ! i) = ''pending''
           \<and> error (?ops ! i) = None"
    from k len have "k < length files" by simp
    from each [OF this] no show ?thesis
      by (simp add: candidate_path_def candidate_name_no_token)
  qed
  have shared: "target (?ops ! i) = target (?ops ! j)"
    if no: "\<not> str_contains (pattern self) ''{n}''"
      and plan: "generate_rename_plan os fs self = Some (Inr self')"
      and i: "i < length ?ops" and j: "j < length ?ops"
      and same: "normalize_extension (path_suffix (source (?ops ! i)))
                 = normalize_extension (path_suffix (source (?ops ! j)))"
  proof -
    from planned [OF no plan i] planned [OF no plan j] same
    have "Some (target (?ops ! i)) = Some (target (?ops ! j))" by simp
    then show ?thesis by simp
  qed
  from candidate_name_no_token planned shared show ?thesis by blast
qed

text \<open>
  C3 (amended) on the directory holding \<^verbatim>\<open>1.png\<close> and \<^verbatim>\<open>2.png\<close> with the pattern
  \<^verbatim>\<open>photo\<close>: both operations of the plan have the same target.
\<close>

theorem plan_without_token_shares_targets_witness:
  "\<not> str_contains ''photo'' ''{n}''
   \<and> generate_rename_plan listing_os (files_of [''1.png'', ''2.png'']) (renamer ''photo'' [])
      = Some (Inr (renamer ''photo''
          [pending_op ''1.png'' ''photo.png'', pending_op ''2.png'' ''photo.png'']))
   \<and> target (rename_operations (renamer ''photo''
          [pending_op ''1.png'' ''photo.png'', pending_op ''2.png'' ''photo.png'']) ! 0)
      = target (rename_operations (renamer ''photo''
          [pending_op ''1.png'' ''photo.png'', pending_op ''2.png'' ''photo.png'']) ! 1)"
proof -
  let ?fs = "files_of [''1.png'', ''2.png'']"
  let ?self = "renamer ''photo'' []"
  let ?self' = "renamer ''photo''
          [pending_op ''1.png'' ''photo.png'', pending_op ''2.png'' ''photo.png'']"
  have no: "\<not> str_contains (pattern ?self) ''{n}''" and no': "\<not> str_contains ''photo'' ''{n}''"
    by code_simp+
  have plan: "generate_rename_plan listing_os ?fs ?self = Some (Inr ?self')"
    by code_simp
  have len: "0 < length (rename_operations ?self')" "1 < length (rename_operations ?self')"
    by (simp_all add: renamer_def)
  have same: "normalize_extension (path_suffix (source (rename_operations ?self' ! 0)))
              = normalize_extension (path_suffix (source (rename_operations ?self' ! 1)))"
    by code_simp
  from plan_without_token_shares_targets [of "''photo''" 0 "in_photos ''1.png''" ?self
      listing_os ?fs ?self' 1] no plan len same
  have "target (rename_operations ?self' ! 0) = target (rename_operations ?self' ! 1)"
    by blast
  with no' plan show ?thesis by blast
qed

text \<open>
  Claim C3 as stated fails. With the pattern \<^verbatim>\<open>photo\<close> and a directory holding
  \<^verbatim>\<open>1.png\<close> and \<^verbatim>\<open>2.png\<close>, neither candidate \<^verbatim>\<open>photo.png\<close> exists when the plan is
  made, so the resolver returns it unchanged twice: the targets of the plan are not
  pairwise distinct.
\<close>

theorem plan_without_token_counterexample:
  "\<not> str_contains ''photo'' ''{n}''
   \<and> generate_rename_plan listing_os (files_of [''1.png'', ''2.png'']) (renamer ''photo'' [])
      = Some (Inr (renamer ''photo''
          [pending_op ''1.png'' ''photo.png'', pending_op ''2.png'' ''photo.png'']))
   \<and> \<not> distinct (map target
          [pending_op ''1.png'' ''photo.png'', pending_op ''2.png'' ''photo.png''])"
proof -
  have a: "\<not> str_contains ''photo'' ''{n}''"
    by code_simp
  have b: "generate_rename_plan listing_os (files_of [''1.png'', ''2.png'']) (renamer ''photo'' [])
      = Some (Inr (renamer ''photo''
          [pending_op ''1.png'' ''photo.png'', pending_op ''2.png'' ''photo.png'']))"
    by code_simp
  have c: "\<not> distinct (map target
          [pending_op ''1.png'' ''photo.png'', pending_op ''2.png'' ''photo.png''])"
    by (simp add: pending_op_def)
  from a b c show ?thesis by simp
qed

subsection \<open>Files without an extension\<close>

lemma normalize_extension_empty: "normalize_extension [] = ''.''"
  by code_simp

lemma candidate_name_no_suffix:
  "path_suffix f = [] \<Longrightarrow> candidate_name pat i f = str_replace ''{n}'' (str_nat i) pat @ ''.''"
  by (simp add: candidate_name_def normalize_extension_empty)

text \<open>
  Claim C10. For a source file whose suffix is empty, the candidate name is the pattern
  with \<^verbatim>\<open>{n}\<close> replaced by the index, followed by one bare dot, and the target recorded in
  the plan is the resolver's answer for that name in the directory. \<^verbatim>\<open>README\<close> and
  \<^verbatim>\<open>.hidden\<close> have an empty suffix; in a directory holding just these two, the pattern
  \<^verbatim>\<open>photo{n}\<close> plans the targets \<^verbatim>\<open>photo1.\<close> and \<^verbatim>\<open>photo2.\<close>.
\<close>

theorem empty_suffix_trailing_dot:
  "(path_suffix f = [] \<longrightarrow>
      candidate_name pat i f = str_replace ''{n}'' (str_nat i) pat @ ''.'')
   \<and> (generate_rename_plan os fs self = Some (Inr self')
       \<and> i < length (rename_operations self')
       \<and> path_suffix (source (rename_operations self' ! i)) = []
      \<longrightarrow> handle_name_conflict (os_exists os fs)
            (path_div (folder_path self)
               (str_replace ''{n}'' (str_nat (i + 1)) (pattern self) @ ''.''))
          = Some (target (rename_operations self' ! i)))
   \<and> path_suffix (in_photos ''README'') = []
   \<and> path_suffix (in_photos ''.hidden'') = []
   \<and> generate_rename_plan listing_os (files_of [''README'', ''.hidden'']) (renamer ''photo{n}'' [])
      = Some (Inr (renamer ''photo{n}''
          [pending_op ''README'' ''photo1.'', pending_op ''.hidden'' ''photo2.'']))
   \<and> path_name (in_photos ''photo1.'') = ''photo1.''"
proof -
  let ?ops = "rename_operations self'"
  have planned: "handle_name_conflict (os_exists os fs)
            (path_div (folder_path self)
               (str_replace ''{n}'' (str_nat (i + 1)) (pattern self) @ ''.''))
          = Some (target (?ops ! i))"
    if plan: "generate_rename_plan os fs self = Some (Inr self')"
      and i: "i < length ?ops"
      and bare: "path_suffix (source (?ops ! i)) = []"
    using plan
  proof (rule generate_rename_plan_nth)
    fix files
    assume len: "length ?ops = length files"
      and each: "\<And>i. i < length files \<Longrightarrow>
           source (?ops ! i) = files ! i
           \<and> handle_name_conflict (os_exists os fs)
                (candidate_path (folder_path self) (pattern self) (i + 1) (files ! i))
               = Some (target (?ops ! i))
           \<and> status (?ops ! i) = ''pending''
           \<and> error (?ops ! i) = None"
    from i len have "i < length files" by simp
    from each [OF this] bare show ?thesis
      by (simp add: candidate_path_def candidate_name_no_suffix)
  qed
  have e: "path_suffix (in_photos ''README'') = []" "path_suffix (in_photos ''.hidden'') = []"
    "generate_rename_plan listing_os (files_of [''README'', ''.hidden'']) (renamer ''photo{n}'' [])
      = Some (Inr (renamer ''photo{n}''
          [pending_op ''README'' ''photo1.'', pending_op ''.hidden'' ''photo2.'']))"
    "path_name (in_photos ''photo1.'') = ''photo1.''"
    by code_simp+
  from candidate_name_no_suffix planned e show ?thesis by blast
qed

text \<open>
  C10 on the directory holding \<^verbatim>\<open>README\<close> and \<^verbatim>\<open>.hidden\<close>: the first source has an empty
  suffix and its planned target is the resolver's answer for \<^verbatim>\<open>photo1.\<close>.
\<close>

theorem empty_suffix_trailing_dot_witness:
  "path_suffix (source (rename_operations (renamer ''photo{n}''
       [pending_op ''README'' ''photo1.'', pending_op ''.hidden'' ''photo2.'']) ! 0)) = []
   \<and> handle_name_conflict (os_exists listing_os (files_of [''README'', ''.hidden'']))
        (path_div (folder_path (renamer ''photo{n}'' []))
           (str_replace ''{n}'' (str_nat (0 + 1)) (pattern (renamer ''photo{n}'' [])) @ ''.''))
      = Some (target (rename_operations (renamer ''photo{n}''
          [pending_op ''README'' ''photo1.'', pending_op ''.hidden'' ''photo2.'']) ! 0))"
proof -
  let ?fs = "files_of [''README'', ''.hidden'']"
  let ?self = "renamer ''photo{n}'' []"
  let ?self' = "renamer ''photo{n}''
       [pending_op ''README'' ''photo1.'', pending_op ''.hidden'' ''photo2.'']"
  have plan: "generate_rename_plan listing_os ?fs ?self = Some (Inr ?self')"
    and bare: "path_suffix (source (rename_operations ?self' ! 0)) = []"
    by code_simp+
  have len: "0 < length (rename_operations ?self')"
    by (simp add: renamer_def)
  from empty_suffix_trailing_dot [of "in_photos ''README''" "''photo{n}''" 0 listing_os ?fs
      ?self ?self'] plan bare len
  have "handle_name_conflict (os_exists listing_os ?fs)
        (path_div (folder_path ?self)
           (str_replace ''{n}'' (str_nat (0 + 1)) (pattern ?self) @ ''.''))
      = Some (target (rename_operations ?self' ! 0))"
    by blast
  with bare show ?thesis by blast
qed

end
